theory Spec2Isabelle
  imports Main "HOL-Library.Word"
begin

unbundle bit_operations_syntax

section \<open>The state machine engine of src/state-machine.c\<close>

text \<open>
  The engine is a C library: a machine record, two initialisers, a reader of the current
  state and the dispatch function \<open>state_machine_event\<close>. The model below follows
  \<^verbatim>\<open>src/src/state-machine.c\<close> statement by statement.

  \<^item> \<open>uint32_t\<close> is \<open>32 word\<close>.
  \<^item> An \<open>assert\<close> that fails, a read through a pointer that points to no object and a
    call through a NULL function pointer end the run: the functions return
    \<open>Inl\<close> of a \<open>fault\<close>. A normal return is \<open>Inr\<close>. Assertions are compiled in
    (\<open>NDEBUG\<close> is not defined).
  \<^item> The functions the embedder supplies (locking primitives, transition function,
    callbacks, cleanup) act on the embedder's own world, a value of type \<open>'w\<close>, which is
    threaded through every call. They are total functions of that world and do not write
    the fields of the machine record: the engine is the only writer of the machine.
  \<^item> Every call of an embedder function is appended to a log of \<open>call\<close>s, in the order the
    code makes them, so that "is invoked" and "is not invoked" are statements on the log.
  \<^item> \<open>void *\<close> values are opaque: type \<open>'p\<close>.
\<close>

subsection \<open>state-machine.h: constants and data\<close>

type_synonym uint32_t = "32 word"

definition STATE_MACHINE_SUCCESS :: uint32_t where
  "STATE_MACHINE_SUCCESS = 0"

definition STATE_MACHINE_WOULD_BLOCK :: uint32_t where
  "STATE_MACHINE_WOULD_BLOCK = 1"

definition STATE_MACHINE_NONBLOCK :: uint32_t where
  "STATE_MACHINE_NONBLOCK = 2048"

definition is_sm_success :: "uint32_t \<Rightarrow> bool" where
  "is_sm_success r = (r = STATE_MACHINE_SUCCESS)"

definition is_sm_failure :: "uint32_t \<Rightarrow> bool" where
  "is_sm_failure r = (r \<noteq> STATE_MACHINE_SUCCESS)"

text \<open>
  The log of calls into the embedder's code. \<open>Call_try_take b\<close> records the value
  \<open>try_take\<close> returned, \<open>Call_transition s e r\<close> the state and event the transition function
  was given and the status it returned, \<open>Call_on_enter e s p\<close> the cause, current and
  previous state, \<open>Call_on_undefined e s\<close> the cause and current state, and
  \<open>Call_cleanup r\<close> the status the cleanup function returned.
\<close>

datatype call =
    Call_try_take bool
  | Call_take
  | Call_give
  | Call_transition uint32_t uint32_t uint32_t
  | Call_on_enter uint32_t uint32_t uint32_t
  | Call_on_undefined uint32_t uint32_t
  | Call_cleanup uint32_t

type_synonym 'w env = "'w \<times> call list"

text \<open>
  The callbacks as state-machine.c calls them: \<open>on_enter(event, current_state,
  previous_state, event_data, data)\<close> and \<open>on_undefined_transition(event, current_state,
  event_data, data)\<close>. (The typedefs of state-machine.h have no \<open>event_data\<close> parameter.)
\<close>

type_synonym ('p, 'w) On_state_enter =
  "uint32_t \<Rightarrow> uint32_t \<Rightarrow> uint32_t \<Rightarrow> 'p \<Rightarrow> 'p \<Rightarrow> 'w \<Rightarrow> 'w"

type_synonym ('p, 'w) On_undefined_state_transition =
  "uint32_t \<Rightarrow> uint32_t \<Rightarrow> 'p \<Rightarrow> 'p \<Rightarrow> 'w \<Rightarrow> 'w"

text \<open>
  \<open>struct State_machine_transition_s\<close>. The flag \<open>is_transition\<close> and the member of the
  union \<open>result\<close> it selects are one tag here: \<open>Transition\<close> is \<open>is_transition = true\<close>
  with \<open>result.transition\<close>, \<open>No_transition\<close> is \<open>is_transition = false\<close> with
  \<open>result.no_transition\<close>, as the macros \<open>STATE_MACHINE_TRANSITION\<close> and
  \<open>STATE_MACHINE_NO_TRANSITION\<close> build them. A callback that is NULL is \<open>None\<close>.
\<close>

datatype ('p, 'w) transition_result =
    Transition (next_state: uint32_t) (on_enter: "('p, 'w) On_state_enter option")
  | No_transition (on_undefined_transition: "('p, 'w) On_undefined_state_transition option")

record ('p, 'w) State_machine_transition =
  cause :: uint32_t
  from_state :: uint32_t
  result :: "('p, 'w) transition_result"

definition IS_TRANSITION :: "('p, 'w) State_machine_transition \<Rightarrow> bool" where
  "IS_TRANSITION t = (case result t of Transition _ _ \<Rightarrow> True | No_transition _ \<Rightarrow> False)"

text \<open>
  A \<open>State_machine_transition *\<close>: \<open>Some t\<close> points to the object \<open>t\<close>; \<open>None\<close> is a pointer
  that points to no object (NULL, never assigned, or past the end of the table).
\<close>

type_synonym ('p, 'w) transition_ptr = "('p, 'w) State_machine_transition option"

text \<open>
  \<open>State_machine_locking\<close>: three function pointers, NULL is \<open>None\<close>. (The field \<open>take\<close> is
  \<open>take_lock\<close> here, \<open>take\<close> being a list function of HOL.)
\<close>

record 'w State_machine_locking =
  try_take :: "('w \<Rightarrow> bool \<times> 'w) option"
  take_lock :: "('w \<Rightarrow> 'w) option"
  give :: "('w \<Rightarrow> 'w) option"

definition STATE_MACHINE_NO_LOCKING :: "'w State_machine_locking" where
  "STATE_MACHINE_NO_LOCKING = \<lparr>try_take = None, take_lock = None, give = None\<rparr>"

text \<open>
  The transition function returns a status and stores a pointer through its last
  argument; the pointer it leaves there is the second component (\<open>None\<close> when it stored
  nothing usable). The cleanup function gets that pointer back.
\<close>

type_synonym ('p, 'w) State_machine_transition_function =
  "uint32_t \<Rightarrow> uint32_t \<Rightarrow> 'p \<Rightarrow> 'w \<Rightarrow> uint32_t \<times> ('p, 'w) transition_ptr \<times> 'w"

type_synonym ('p, 'w) State_machine_transition_cleanup_function =
  "'p \<Rightarrow> ('p, 'w) transition_ptr \<Rightarrow> 'w \<Rightarrow> uint32_t \<times> 'w"

text \<open>
  The member \<open>transition\<close> of \<open>State_machine\<close>: the flag \<open>using_table\<close> with the union
  \<open>implementation\<close>. \<open>Table\<close> is \<open>using_table = true\<close> with the table pointer (a row-major
  array, \<open>None\<close> for NULL), \<open>Function\<close> is \<open>using_table = false\<close> with the two function
  pointers.
\<close>

datatype ('p, 'w) implementation =
    Table (table: "('p, 'w) State_machine_transition list option")
  | Function (transition_function: "('p, 'w) State_machine_transition_function option")
             (cleanup: "('p, 'w) State_machine_transition_cleanup_function option")

record ('p, 'w) State_machine =
  max_state :: uint32_t
  max_event :: uint32_t
  current_state :: uint32_t
  lock :: "'w State_machine_locking"
  transition :: "('p, 'w) implementation"
  data :: 'p

definition SM_USING_TRANSITION_TABLE :: "('p, 'w) State_machine \<Rightarrow> bool" where
  "SM_USING_TRANSITION_TABLE sm = (case transition sm of Table _ \<Rightarrow> True | Function _ _ \<Rightarrow> False)"

subsection \<open>Faults\<close>

datatype assertion =
    Sm_not_null
  | Max_state_positive
  | Max_event_positive
  | Init_state_below_max_state
  | Locking_definition_consistency
  | Transition_table_not_null
  | Transition_function_not_null
  | State_not_null
  | Event_below_max_event
  | Current_state_below_max_state
  | New_state_below_max_state
  | Stored_state_is_current_state

datatype fault =
    Assertion_failed assertion
  | Invalid_transition_pointer
  | Null_function_call

subsection \<open>state-machine.c: macros\<close>

definition USE_LOCKING :: "('p, 'w) State_machine \<Rightarrow> bool" where
  "USE_LOCKING sm = (take_lock (lock sm) \<noteq> None)"

definition ASSERT_LOCKING_DEFINITION_CONSISTENCY :: "'w State_machine_locking \<Rightarrow> bool" where
  "ASSERT_LOCKING_DEFINITION_CONSISTENCY l =
     ((take_lock l = None \<and> try_take l = None \<and> give l = None)
      \<or> (take_lock l \<noteq> None \<and> try_take l \<noteq> None \<and> give l \<noteq> None))"

subsection \<open>The initialisers\<close>

text \<open>
  \<open>state_machine_init_common\<close> (lines 73-97). The first argument is the pointer \<open>sm\<close>:
  \<open>None\<close> for NULL, \<open>Some m\<close> for a pointer to memory whose content on entry is \<open>m\<close>.
  The consistency assertion of line 88 reads \<open>SM_LOCK(sm)\<close>, the lock stored in that
  memory on entry, before \<open>memset\<close>; the parameter \<open>lock\<close> is stored unexamined at line 94.
  After \<open>memset\<close> the union holds NULL pointers, until the caller fills it.
\<close>

definition state_machine_init_common ::
  "('p, 'w) State_machine option \<Rightarrow> uint32_t \<Rightarrow> uint32_t \<Rightarrow> uint32_t \<Rightarrow>
   'w State_machine_locking \<Rightarrow> bool \<Rightarrow> 'p \<Rightarrow> fault + ('p, 'w) State_machine" where
  "state_machine_init_common sm max_state' max_event' init_state lock' using_transition_table data' =
     (case sm of
        None \<Rightarrow> Inl (Assertion_failed Sm_not_null)
      | Some m \<Rightarrow>
          if \<not> max_state' > 0 then Inl (Assertion_failed Max_state_positive)
          else if \<not> max_event' > 0 then Inl (Assertion_failed Max_event_positive)
          else if \<not> init_state < max_state' then Inl (Assertion_failed Init_state_below_max_state)
          else if \<not> ASSERT_LOCKING_DEFINITION_CONSISTENCY (lock m)
            then Inl (Assertion_failed Locking_definition_consistency)
          else Inr \<lparr>max_state = max_state',
                    max_event = max_event',
                    current_state = init_state,
                    lock = lock',
                    transition = (if using_transition_table then Table None else Function None None),
                    data = data'\<rparr>)"

text \<open>\<open>state_machine_init_table\<close> (lines 99-112).\<close>

definition state_machine_init_table ::
  "('p, 'w) State_machine option \<Rightarrow> uint32_t \<Rightarrow> uint32_t \<Rightarrow> uint32_t \<Rightarrow>
   'w State_machine_locking \<Rightarrow> ('p, 'w) State_machine_transition list option \<Rightarrow> 'p \<Rightarrow>
   fault + ('p, 'w) State_machine" where
  "state_machine_init_table sm max_state' max_event' init_state locking transition_table data' =
     (if transition_table = None then Inl (Assertion_failed Transition_table_not_null)
      else case state_machine_init_common sm max_state' max_event' init_state locking True data' of
             Inl e \<Rightarrow> Inl e
           | Inr m \<Rightarrow> Inr (m\<lparr>transition := Table transition_table\<rparr>))"

text \<open>\<open>state_machine_init_function\<close> (lines 114-132); \<open>cleanup\<close> may be NULL.\<close>

definition state_machine_init_function ::
  "('p, 'w) State_machine option \<Rightarrow> uint32_t \<Rightarrow> uint32_t \<Rightarrow> uint32_t \<Rightarrow>
   'w State_machine_locking \<Rightarrow> ('p, 'w) State_machine_transition_function option \<Rightarrow>
   ('p, 'w) State_machine_transition_cleanup_function option \<Rightarrow> 'p \<Rightarrow>
   fault + ('p, 'w) State_machine" where
  "state_machine_init_function sm max_state' max_event' init_state locking transition' cleanup' data' =
     (if transition' = None then Inl (Assertion_failed Transition_function_not_null)
      else case state_machine_init_common sm max_state' max_event' init_state locking False data' of
             Inl e \<Rightarrow> Inl e
           | Inr m \<Rightarrow> Inr (m\<lparr>transition := Function transition' cleanup'\<rparr>))"

subsection \<open>Locking\<close>

text \<open>
  \<open>lock_take\<close> (lines 137-159): the status tells whether the caller is in the critical
  section. \<open>lock_give\<close> (lines 161-171).
\<close>

definition lock_take ::
  "('p, 'w) State_machine \<Rightarrow> uint32_t \<Rightarrow> 'w env \<Rightarrow> fault + (uint32_t \<times> 'w env)" where
  "lock_take sm flags env =
     (if \<not> ASSERT_LOCKING_DEFINITION_CONSISTENCY (lock sm)
        then Inl (Assertion_failed Locking_definition_consistency)
      else if USE_LOCKING sm then
        (if flags AND STATE_MACHINE_NONBLOCK \<noteq> 0 then
           (case try_take (lock sm) of
              None \<Rightarrow> Inl Null_function_call
            | Some f \<Rightarrow>
                (case f (fst env) of (got, w') \<Rightarrow>
                   if \<not> got then Inr (STATE_MACHINE_WOULD_BLOCK, (w', snd env @ [Call_try_take got]))
                   else Inr (STATE_MACHINE_SUCCESS, (w', snd env @ [Call_try_take got]))))
         else
           (case take_lock (lock sm) of
              None \<Rightarrow> Inl Null_function_call
            | Some f \<Rightarrow> Inr (STATE_MACHINE_SUCCESS, (f (fst env), snd env @ [Call_take]))))
      else Inr (STATE_MACHINE_SUCCESS, env))"

definition lock_give :: "('p, 'w) State_machine \<Rightarrow> 'w env \<Rightarrow> fault + 'w env" where
  "lock_give sm env =
     (if \<not> ASSERT_LOCKING_DEFINITION_CONSISTENCY (lock sm)
        then Inl (Assertion_failed Locking_definition_consistency)
      else if USE_LOCKING sm then
        (case give (lock sm) of
           None \<Rightarrow> Inl Null_function_call
         | Some f \<Rightarrow> Inr (f (fst env), snd env @ [Call_give]))
      else Inr env)"

subsection \<open>Reading the current state\<close>

text \<open>
  \<open>state_machine_current_state\<close> (lines 173-189). The argument \<open>state\<close> is the output
  pointer: \<open>None\<close> for NULL, \<open>Some v\<close> for a pointer to a cell holding \<open>v\<close> on entry. The
  result is the status, the machine, the content of the cell on return, and the
  embedder's world with the log.
\<close>

definition state_machine_current_state ::
  "('p, 'w) State_machine option \<Rightarrow> uint32_t option \<Rightarrow> uint32_t \<Rightarrow> 'w env \<Rightarrow>
   fault + (uint32_t \<times> ('p, 'w) State_machine \<times> uint32_t \<times> 'w env)" where
  "state_machine_current_state sm state flags env =
     (case sm of
        None \<Rightarrow> Inl (Assertion_failed Sm_not_null)
      | Some m \<Rightarrow>
          (case state of
             None \<Rightarrow> Inl (Assertion_failed State_not_null)
           | Some cell \<Rightarrow>
               (case lock_take m flags env of
                  Inl e \<Rightarrow> Inl e
                | Inr (ret, env1) \<Rightarrow>
                    if is_sm_failure ret then Inr (ret, m, cell, env1)
                    else
                      (case lock_give m env1 of
                         Inl e \<Rightarrow> Inl e
                       | Inr env2 \<Rightarrow> Inr (ret, m, current_state m, env2)))))"

subsection \<open>Dispatching an event\<close>

text \<open>
  Line 239: \<open>&(table[current_state][event])\<close>, the table seen as rows of \<open>max_event\<close>
  entries. Only the address is computed here; it points to an object when the table
  pointer does and the index is inside the array.
\<close>

definition table_entry ::
  "('p, 'w) State_machine_transition list option \<Rightarrow> uint32_t \<Rightarrow> uint32_t \<Rightarrow> uint32_t \<Rightarrow>
   ('p, 'w) transition_ptr" where
  "table_entry tbl max_event' current_state' event =
     (case tbl of
        None \<Rightarrow> None
      | Some entries \<Rightarrow>
          (let i = unat current_state' * unat max_event' + unat event
           in if i < length entries then Some (entries ! i) else None))"

text \<open>
  Lines 234-259: find the transition. With a table, \<open>ret\<close> keeps its value; with a
  function, \<open>ret\<close> is the status the transition function returns, handled later.
\<close>

definition resolve_transition ::
  "('p, 'w) State_machine \<Rightarrow> uint32_t \<Rightarrow> uint32_t \<Rightarrow> uint32_t \<Rightarrow> uint32_t \<Rightarrow> 'p \<Rightarrow> 'w env \<Rightarrow>
   fault + (uint32_t \<times> ('p, 'w) transition_ptr \<times> 'w env)" where
  "resolve_transition sm ret max_event' current_state' event data' env =
     (case transition sm of
        Table tbl \<Rightarrow> Inr (ret, table_entry tbl max_event' current_state' event, env)
      | Function tf _ \<Rightarrow>
          (case tf of
             None \<Rightarrow> Inl Null_function_call
           | Some transition_function' \<Rightarrow>
               (case transition_function' current_state' event data' (fst env) of
                  (ret', transition', w') \<Rightarrow>
                    Inr (ret', transition',
                         (w', snd env @ [Call_transition current_state' event ret'])))))"

text \<open>
  Lines 267-272: the only assignment to \<open>current_state\<close>. \<open>IS_TRANSITION(transition)\<close> is
  evaluated only when \<open>is_sm_success(ret)\<close> holds. The result is the machine, the local
  \<open>current_state\<close> and the local \<open>previous_state\<close>.
\<close>

definition change_state ::
  "('p, 'w) State_machine \<Rightarrow> uint32_t \<Rightarrow> ('p, 'w) transition_ptr \<Rightarrow> uint32_t \<Rightarrow> uint32_t \<Rightarrow>
   fault + (('p, 'w) State_machine \<times> uint32_t \<times> uint32_t)" where
  "change_state sm ret transition' current_state' previous_state =
     (if is_sm_success ret then
        (case transition' of
           None \<Rightarrow> Inl Invalid_transition_pointer
         | Some t \<Rightarrow>
             (case result t of
                Transition next_state' _ \<Rightarrow>
                  Inr (sm\<lparr>current_state := next_state'\<rparr>, next_state', current_state')
              | No_transition _ \<Rightarrow> Inr (sm, current_state', previous_state)))
      else Inr (sm, current_state', previous_state))"

text \<open>Lines 312-330: the callback of the result, when it has one.\<close>

definition invoke_callback ::
  "('p, 'w) transition_ptr \<Rightarrow> uint32_t \<Rightarrow> uint32_t \<Rightarrow> uint32_t \<Rightarrow> 'p \<Rightarrow> 'p \<Rightarrow> 'w env \<Rightarrow>
   fault + 'w env" where
  "invoke_callback transition' event current_state' previous_state event_data data' env =
     (case transition' of
        None \<Rightarrow> Inl Invalid_transition_pointer
      | Some t \<Rightarrow>
          (case result t of
             Transition _ on_enter' \<Rightarrow>
               (case on_enter' of
                  None \<Rightarrow> Inr env
                | Some f \<Rightarrow>
                    Inr (f event current_state' previous_state event_data data' (fst env),
                         snd env @ [Call_on_enter event current_state' previous_state]))
           | No_transition on_undefined_transition' \<Rightarrow>
               (case on_undefined_transition' of
                  None \<Rightarrow> Inr env
                | Some f \<Rightarrow>
                    Inr (f event current_state' event_data data' (fst env),
                         snd env @ [Call_on_undefined event current_state']))))"

text \<open>Lines 337-350: the cleanup function, when there is one, gives the final status.\<close>

definition invoke_cleanup ::
  "('p, 'w) State_machine \<Rightarrow> uint32_t \<Rightarrow> 'p \<Rightarrow> ('p, 'w) transition_ptr \<Rightarrow> 'w env \<Rightarrow>
   uint32_t \<times> 'w env" where
  "invoke_cleanup sm ret data' transition' env =
     (case transition sm of
        Table _ \<Rightarrow> (ret, env)
      | Function _ cleanup' \<Rightarrow>
          (case cleanup' of
             None \<Rightarrow> (ret, env)
           | Some f \<Rightarrow>
               (case f data' transition' (fst env) of
                  (ret', w') \<Rightarrow> (ret', (w', snd env @ [Call_cleanup ret'])))))"

text \<open>
  \<open>state_machine_event\<close> (lines 191-351). The result is the status, the machine and the
  embedder's world with the log.
\<close>

definition state_machine_event ::
  "('p, 'w) State_machine option \<Rightarrow> uint32_t \<Rightarrow> 'p \<Rightarrow> uint32_t \<Rightarrow> 'w env \<Rightarrow>
   fault + (uint32_t \<times> ('p, 'w) State_machine \<times> 'w env)" where
  "state_machine_event sm event event_data flags env =
     (case sm of
        None \<Rightarrow> Inl (Assertion_failed Sm_not_null)
      | Some m \<Rightarrow>
     (case lock_take m flags env of
        Inl e \<Rightarrow> Inl e
      | Inr (ret0, env1) \<Rightarrow>
     if is_sm_failure ret0 then Inr (ret0, m, env1)
     else
       let max_event' = max_event m;
           max_state' = max_state m;
           current_state' = current_state m;
           data' = data m;
           previous_state = max_state'
       in
     if \<not> event < max_event' then Inl (Assertion_failed Event_below_max_event)
     else if \<not> current_state' < max_state' then Inl (Assertion_failed Current_state_below_max_state)
     else
     (case resolve_transition m ret0 max_event' current_state' event data' env1 of
        Inl e \<Rightarrow> Inl e
      | Inr (ret, transition', env2) \<Rightarrow>
     (case change_state m ret transition' current_state' previous_state of
        Inl e \<Rightarrow> Inl e
      | Inr (m', current_state'', previous_state') \<Rightarrow>
     if \<not> current_state'' < max_state' then Inl (Assertion_failed New_state_below_max_state)
     else if \<not> current_state m' = current_state''
       then Inl (Assertion_failed Stored_state_is_current_state)
     else
     (case lock_give m' env2 of
        Inl e \<Rightarrow> Inl e
      | Inr env3 \<Rightarrow>
     if is_sm_failure ret then Inr (ret, m', env3)
     else
     (case invoke_callback transition' event current_state'' previous_state' event_data data' env3 of
        Inl e \<Rightarrow> Inl e
      | Inr env4 \<Rightarrow>
     (case invoke_cleanup m' ret data' transition' env4 of
        (ret', env5) \<Rightarrow> Inr (ret', m', env5))))))))"

subsection \<open>Notions used in the statements\<close>

text \<open>The number of calls of the cleanup function in a log.\<close>

fun is_cleanup_call :: "call \<Rightarrow> bool" where
  "is_cleanup_call (Call_cleanup _) = True"
| "is_cleanup_call _ = False"

definition cleanup_calls :: "call list \<Rightarrow> nat" where
  "cleanup_calls log = length (filter is_cleanup_call log)"

text \<open>
  A transition pointer is harmless for the bound on states when it points to no object,
  to a \<open>No_transition\<close>, or to a \<open>Transition\<close> whose \<open>next_state\<close> is below \<open>max_state\<close>.
  A strategy produces only such results when every entry of the table does, or every
  pointer the transition function can store does.
\<close>

definition next_state_below_max :: "uint32_t \<Rightarrow> ('p, 'w) transition_ptr \<Rightarrow> bool" where
  "next_state_below_max max_state' tp =
     (case tp of
        None \<Rightarrow> True
      | Some t \<Rightarrow> (case result t of Transition ns _ \<Rightarrow> ns < max_state' | No_transition _ \<Rightarrow> True))"

definition produces_states_below_max :: "('p, 'w) State_machine \<Rightarrow> bool" where
  "produces_states_below_max m =
     (case transition m of
        Table tbl \<Rightarrow>
          (case tbl of
             None \<Rightarrow> True
           | Some entries \<Rightarrow> list_all (\<lambda>t. next_state_below_max (max_state m) (Some t)) entries)
      | Function tf _ \<Rightarrow>
          (case tf of
             None \<Rightarrow> True
           | Some f \<Rightarrow> (\<forall>s e d w. next_state_below_max (max_state m) (fst (snd (f s e d w))))))"

subsection \<open>The machines used as concrete inputs\<close>

text \<open>
  The initialiser macros of state-machine.h.
\<close>

definition STATE_MACHINE_TRANSITION ::
  "uint32_t \<Rightarrow> uint32_t \<Rightarrow> uint32_t \<Rightarrow> ('p, 'w) On_state_enter option \<Rightarrow>
   ('p, 'w) State_machine_transition" where
  "STATE_MACHINE_TRANSITION s e ns h = \<lparr>cause = e, from_state = s, result = Transition ns h\<rparr>"

definition STATE_MACHINE_NO_TRANSITION ::
  "uint32_t \<Rightarrow> uint32_t \<Rightarrow> ('p, 'w) On_undefined_state_transition option \<Rightarrow>
   ('p, 'w) State_machine_transition" where
  "STATE_MACHINE_NO_TRANSITION s e h = \<lparr>cause = e, from_state = s, result = No_transition h\<rparr>"

text \<open>
  The machine of \<^verbatim>\<open>src/example/simple.c\<close>: states 0, 1, 2 and events \<open>EVENT_INC = 0\<close>,
  \<open>EVENT_DEC = 1\<close>. Its callbacks print one line each; the world is the number of lines
  printed so far. Opaque pointers are numbers, 0 for NULL.
\<close>

definition on_enter_simple :: "(nat, nat) On_state_enter" where
  "on_enter_simple cause' current_state' previous_state event_data data' printed = printed + 1"

definition on_undefined_simple :: "(nat, nat) On_undefined_state_transition" where
  "on_undefined_simple cause' current_state' event_data data' printed = printed + 1"

definition transition_table :: "(nat, nat) State_machine_transition list" where
  "transition_table =
     [STATE_MACHINE_TRANSITION 0 0 1 (Some on_enter_simple),
      STATE_MACHINE_NO_TRANSITION 0 1 (Some on_undefined_simple),
      STATE_MACHINE_TRANSITION 1 0 2 (Some on_enter_simple),
      STATE_MACHINE_TRANSITION 1 1 0 (Some on_enter_simple),
      STATE_MACHINE_NO_TRANSITION 2 0 (Some on_undefined_simple),
      STATE_MACHINE_TRANSITION 2 1 1 (Some on_enter_simple)]"

definition simple_sm :: "(nat, nat) State_machine" where
  "simple_sm = \<lparr>max_state = 3, max_event = 2, current_state = 0,
                lock = STATE_MACHINE_NO_LOCKING,
                transition = Table (Some transition_table), data = 0\<rparr>"

text \<open>Memory filled with zero bytes, as a \<open>State_machine\<close> of static storage is before
  initialisation.\<close>

definition zeroed_sm :: "(nat, nat) State_machine" where
  "zeroed_sm = \<lparr>max_state = 0, max_event = 0, current_state = 0,
                lock = STATE_MACHINE_NO_LOCKING, transition = Table None, data = 0\<rparr>"

text \<open>A locking argument with \<open>take\<close> alone.\<close>

definition partial_locking :: "nat State_machine_locking" where
  "partial_locking = \<lparr>try_take = None, take_lock = Some (\<lambda>w. w), give = None\<rparr>"

text \<open>
  A machine with a transition function over two states and three events: event 0 moves
  to state 1, event 1 has no transition, event 2 makes the transition function fail
  with status 7 and store no pointer. Its cleanup function fails with status 9.
\<close>

definition example_transition :: "(nat, nat) State_machine_transition_function" where
  "example_transition s e d w =
     (if e = 0 then (0, Some (STATE_MACHINE_TRANSITION s e 1 (Some on_enter_simple)), w)
      else if e = 1 then (0, Some (STATE_MACHINE_NO_TRANSITION s e (Some on_undefined_simple)), w)
      else (7, None, w))"

definition example_cleanup :: "(nat, nat) State_machine_transition_cleanup_function" where
  "example_cleanup d tp w = (9, w)"

definition function_sm :: "(nat, nat) State_machine" where
  "function_sm = \<lparr>max_state = 2, max_event = 3, current_state = 0,
                  lock = STATE_MACHINE_NO_LOCKING,
                  transition = Function (Some example_transition) (Some example_cleanup),
                  data = 0\<rparr>"

text \<open>A machine without locking whose transition function always returns status 1.\<close>

definition busy_transition :: "(nat, nat) State_machine_transition_function" where
  "busy_transition s e d w = (1, None, w)"

definition busy_sm :: "(nat, nat) State_machine" where
  "busy_sm = \<lparr>max_state = 1, max_event = 1, current_state = 0,
              lock = STATE_MACHINE_NO_LOCKING,
              transition = Function (Some busy_transition) None, data = 0\<rparr>"

text \<open>
  A machine with locking. The world is the lock: \<open>True\<close> when it is held. One state, one
  event, no transition, no callback.
\<close>

definition example_locking :: "bool State_machine_locking" where
  "example_locking = \<lparr>try_take = Some (\<lambda>held. (\<not> held, True)),
                      take_lock = Some (\<lambda>held. True),
                      give = Some (\<lambda>held. False)\<rparr>"

definition locked_sm :: "(nat, bool) State_machine" where
  "locked_sm = \<lparr>max_state = 1, max_event = 1, current_state = 0,
                lock = example_locking,
                transition = Table (Some [STATE_MACHINE_NO_TRANSITION 0 0 None]), data = 0\<rparr>"

section \<open>Properties of the engine\<close>

lemmas engine_defs =
  state_machine_event_def state_machine_current_state_def lock_take_def lock_give_def
  resolve_transition_def table_entry_def change_state_def invoke_callback_def invoke_cleanup_def
  ASSERT_LOCKING_DEFINITION_CONSISTENCY_def USE_LOCKING_def is_sm_failure_def is_sm_success_def
  STATE_MACHINE_SUCCESS_def STATE_MACHINE_WOULD_BLOCK_def STATE_MACHINE_NONBLOCK_def

lemmas init_defs =
  state_machine_init_table_def state_machine_init_function_def state_machine_init_common_def

subsection \<open>The steps of a dispatch\<close>

lemma change_state_cases:
  assumes "change_state m ret tp c p = Inr (m', c', p')"
  shows "(m' = m \<and> c' = c \<and> p' = p
            \<and> (is_sm_failure ret \<or> (\<exists>t h. tp = Some t \<and> result t = No_transition h)))
       \<or> (\<exists>t h. is_sm_success ret \<and> tp = Some t \<and> result t = Transition c' h
                \<and> m' = m\<lparr>current_state := c'\<rparr> \<and> p' = c)"
  using assms
  by (auto simp add: change_state_def is_sm_failure_def is_sm_success_def
      split: if_splits option.splits transition_result.splits)

lemma change_state_fields:
  assumes "change_state m ret tp c p = Inr (m', c', p')"
  shows "max_state m' = max_state m \<and> max_event m' = max_event m \<and> transition m' = transition m
         \<and> lock m' = lock m \<and> data m' = data m"
  using assms
  by (auto simp add: change_state_def split: if_splits option.splits transition_result.splits)

lemma change_state_fault:
  "change_state m ret tp c p = Inl e \<Longrightarrow>
     e = Invalid_transition_pointer \<and> is_sm_success ret \<and> tp = None"
  by (auto simp add: change_state_def split: if_splits option.splits transition_result.splits)

lemma lock_take_fault:
  "lock_take m flags env = Inl e \<Longrightarrow>
     e = Assertion_failed Locking_definition_consistency \<or> e = Null_function_call"
  by (auto simp add: lock_take_def split: if_splits option.splits prod.splits)

lemma lock_give_fault:
  "lock_give m env = Inl e \<Longrightarrow>
     e = Assertion_failed Locking_definition_consistency \<or> e = Null_function_call"
  by (auto simp add: lock_give_def split: if_splits option.splits)

lemma resolve_transition_fault:
  "resolve_transition m ret me s ev d env = Inl e \<Longrightarrow> e = Null_function_call"
  by (auto simp add: resolve_transition_def split: implementation.splits option.splits prod.splits)

lemma invoke_callback_fault:
  "invoke_callback tp ev c p ed d env = Inl e \<Longrightarrow> e = Invalid_transition_pointer"
  by (auto simp add: invoke_callback_def split: option.splits transition_result.splits)

text \<open>
  A dispatch that returns either stopped at the lock, or went through the critical
  section and, when the resolution succeeded, through callback and cleanup.
\<close>

lemma event_returns:
  assumes "state_machine_event (Some m) event ed flags env = Inr (r, m', env')"
  shows "(\<exists>ret0. lock_take m flags env = Inr (ret0, env') \<and> is_sm_failure ret0 \<and> r = ret0 \<and> m' = m)
       \<or> (\<exists>env1 ret tp env2 c p env3.
             lock_take m flags env = Inr (STATE_MACHINE_SUCCESS, env1)
           \<and> event < max_event m \<and> current_state m < max_state m
           \<and> resolve_transition m STATE_MACHINE_SUCCESS (max_event m) (current_state m) event (data m) env1
               = Inr (ret, tp, env2)
           \<and> change_state m ret tp (current_state m) (max_state m) = Inr (m', c, p)
           \<and> c < max_state m \<and> current_state m' = c
           \<and> lock_give m' env2 = Inr env3
           \<and> (if is_sm_failure ret then r = ret \<and> env' = env3
               else \<exists>env4. invoke_callback tp event c p ed (data m) env3 = Inr env4
                          \<and> invoke_cleanup m' ret (data m) tp env4 = (r, env')))"
  using assms
  by (auto simp add: state_machine_event_def Let_def is_sm_failure_def
      split: sum.splits prod.splits if_splits)

lemma event_fields_kept:
  assumes "state_machine_event (Some m) event ed flags env = Inr (r, m', env')"
  shows "max_state m' = max_state m \<and> max_event m' = max_event m \<and> transition m' = transition m
         \<and> lock m' = lock m \<and> data m' = data m"
  using event_returns [OF assms] by (auto dest!: change_state_fields)

lemma event_new_state_fault:
  assumes "state_machine_event (Some m) event ed flags env
             = Inl (Assertion_failed New_state_below_max_state)"
  shows "\<exists>env1 ret tp env2 m' c p.
           lock_take m flags env = Inr (STATE_MACHINE_SUCCESS, env1)
         \<and> resolve_transition m STATE_MACHINE_SUCCESS (max_event m) (current_state m) event (data m) env1
             = Inr (ret, tp, env2)
         \<and> change_state m ret tp (current_state m) (max_state m) = Inr (m', c, p)
         \<and> \<not> c < max_state m"
  using assms
  by (auto simp add: state_machine_event_def Let_def is_sm_failure_def
      split: sum.splits prod.splits if_splits
      dest: lock_take_fault lock_give_fault resolve_transition_fault change_state_fault
            invoke_callback_fault)

subsection \<open>Bounded strategies\<close>

lemma table_entry_below_max:
  assumes "list_all (\<lambda>t. next_state_below_max mx (Some t)) entries"
  shows "next_state_below_max mx (table_entry (Some entries) me s e)"
  using assms by (simp add: table_entry_def next_state_below_max_def list_all_length Let_def)

lemma resolve_below_max:
  assumes "produces_states_below_max m"
    and "resolve_transition m ret0 me s e d env1 = Inr (ret, tp, env2)"
  shows "next_state_below_max (max_state m) tp"
proof (cases "transition m")
  case (Table tbl)
  show ?thesis
  proof (cases tbl)
    case None
    with Table assms(2) show ?thesis
      by (simp add: resolve_transition_def table_entry_def next_state_below_max_def)
  next
    case (Some entries)
    with Table assms(1)
    have "list_all (\<lambda>t. next_state_below_max (max_state m) (Some t)) entries"
      by (simp add: produces_states_below_max_def)
    from table_entry_below_max [OF this] Table Some assms(2) show ?thesis
      by (auto simp add: resolve_transition_def)
  qed
next
  case (Function tf cl)
  with assms obtain f where tf: "tf = Some f"
    by (cases tf) (simp_all add: resolve_transition_def)
  with Function assms(1)
  have "next_state_below_max (max_state m) (fst (snd (f s e d (fst env1))))"
    by (simp add: produces_states_below_max_def)
  with Function tf assms(2) show ?thesis
    by (auto simp add: resolve_transition_def split: prod.splits)
qed

lemma change_state_below_max:
  assumes "next_state_below_max (max_state m) tp" and "current_state m < max_state m"
    and "change_state m ret tp (current_state m) prev = Inr (m', cs, prev')"
  shows "cs < max_state m \<and> current_state m' = cs"
  using assms
  by (auto simp add: change_state_def next_state_below_max_def
      split: if_splits option.splits transition_result.splits)

subsection \<open>The log of a dispatch\<close>

lemma lock_take_cleanup_calls:
  "lock_take m flags env = Inr (r, env1) \<Longrightarrow> cleanup_calls (snd env1) = cleanup_calls (snd env)"
  by (auto simp add: lock_take_def cleanup_calls_def split: if_splits option.splits prod.splits)

lemma lock_give_cleanup_calls:
  "lock_give m env = Inr env1 \<Longrightarrow> cleanup_calls (snd env1) = cleanup_calls (snd env)"
  by (auto simp add: lock_give_def cleanup_calls_def split: if_splits option.splits)

lemma resolve_transition_cleanup_calls:
  "resolve_transition m ret me s e d env = Inr (r, tp, env1) \<Longrightarrow>
     cleanup_calls (snd env1) = cleanup_calls (snd env)"
  by (auto simp add: resolve_transition_def cleanup_calls_def
      split: implementation.splits option.splits prod.splits)

lemma invoke_callback_cleanup_calls:
  "invoke_callback tp e c p ed d env = Inr env1 \<Longrightarrow>
     cleanup_calls (snd env1) = cleanup_calls (snd env)"
  by (auto simp add: invoke_callback_def cleanup_calls_def
      split: transition_result.splits option.splits)

lemma invoke_cleanup_cleanup_calls:
  "invoke_cleanup m ret d tp env = (r, env1) \<Longrightarrow>
     cleanup_calls (snd env1) = cleanup_calls (snd env)
        + (case transition m of
             Table _ \<Rightarrow> 0
           | Function _ c \<Rightarrow> (case c of None \<Rightarrow> 0 | Some _ \<Rightarrow> 1))"
  by (auto simp add: invoke_cleanup_def cleanup_calls_def
      split: implementation.splits option.splits prod.splits)

lemma lock_take_cleanup_mem:
  "lock_take m flags env = Inr (r, env1) \<Longrightarrow>
     Call_cleanup st \<in> set (snd env1) \<longleftrightarrow> Call_cleanup st \<in> set (snd env)"
  by (auto simp add: lock_take_def split: if_splits option.splits prod.splits)

lemma lock_give_cleanup_mem:
  "lock_give m env = Inr env1 \<Longrightarrow>
     Call_cleanup st \<in> set (snd env1) \<longleftrightarrow> Call_cleanup st \<in> set (snd env)"
  by (auto simp add: lock_give_def split: if_splits option.splits)

lemma resolve_transition_cleanup_mem:
  "resolve_transition m ret me s e d env = Inr (r, tp, env1) \<Longrightarrow>
     Call_cleanup st \<in> set (snd env1) \<longleftrightarrow> Call_cleanup st \<in> set (snd env)"
  by (auto simp add: resolve_transition_def split: implementation.splits option.splits prod.splits)

lemma invoke_callback_cleanup_mem:
  "invoke_callback tp e c p ed d env = Inr env1 \<Longrightarrow>
     Call_cleanup st \<in> set (snd env1) \<longleftrightarrow> Call_cleanup st \<in> set (snd env)"
  by (auto simp add: invoke_callback_def split: transition_result.splits option.splits)

lemma invoke_cleanup_Some:
  assumes "transition m = Function tf (Some c)"
    and "invoke_cleanup m ret d tp env = (r, env1)"
  shows "c d tp (fst env) = (r, fst env1) \<and> snd env1 = snd env @ [Call_cleanup r]"
  using assms by (auto simp add: invoke_cleanup_def split: prod.splits)

lemma resolve_transition_status:
  assumes "resolve_transition m ret0 me s e d env = Inr (ret, tp, env1)"
  shows "ret = ret0 \<or> Call_transition s e ret \<in> set (snd env1)"
  using assms
  by (auto simp add: resolve_transition_def split: implementation.splits option.splits prod.splits)

lemma invoke_cleanup_status:
  assumes "invoke_cleanup m ret d tp env = (r, env1)"
  shows "(r = ret \<or> Call_cleanup r \<in> set (snd env1)) \<and> set (snd env) \<subseteq> set (snd env1)"
  using assms
  by (auto simp add: invoke_cleanup_def split: implementation.splits option.splits prod.splits)

subsection \<open>Machines without locking\<close>

lemma lock_take_no_locking:
  "lock m = STATE_MACHINE_NO_LOCKING \<Longrightarrow> lock_take m flags env = Inr (STATE_MACHINE_SUCCESS, env)"
  by (simp add: lock_take_def STATE_MACHINE_NO_LOCKING_def USE_LOCKING_def
      ASSERT_LOCKING_DEFINITION_CONSISTENCY_def)

lemma lock_give_no_locking:
  "lock m = STATE_MACHINE_NO_LOCKING \<Longrightarrow> lock_give m env = Inr env"
  by (simp add: lock_give_def STATE_MACHINE_NO_LOCKING_def USE_LOCKING_def
      ASSERT_LOCKING_DEFINITION_CONSISTENCY_def)

subsection \<open>Runs of the example machines\<close>

lemmas example_defs =
  simple_sm_def transition_table_def zeroed_sm_def partial_locking_def function_sm_def
  example_transition_def example_cleanup_def busy_sm_def busy_transition_def locked_sm_def
  example_locking_def on_enter_simple_def on_undefined_simple_def
  STATE_MACHINE_TRANSITION_def STATE_MACHINE_NO_TRANSITION_def STATE_MACHINE_NO_LOCKING_def

lemma simple_sm_event_inc:
  "state_machine_event (Some simple_sm) 0 0 0 (0, [])
     = Inr (STATE_MACHINE_SUCCESS, simple_sm\<lparr>current_state := 1\<rparr>, (1, [Call_on_enter 0 1 0]))"
  by (simp add: engine_defs example_defs)

lemma simple_sm_event_dec:
  "state_machine_event (Some simple_sm) 1 0 0 (0, [])
     = Inr (STATE_MACHINE_SUCCESS, simple_sm, (1, [Call_on_undefined 1 0]))"
  by (simp add: engine_defs example_defs)

lemma function_sm_event_0:
  "state_machine_event (Some function_sm) 0 0 0 (0, [])
     = Inr (9, function_sm\<lparr>current_state := 1\<rparr>,
            (1, [Call_transition 0 0 0, Call_on_enter 0 1 0, Call_cleanup 9]))"
  by (simp add: engine_defs example_defs)

lemma function_sm_event_1:
  "state_machine_event (Some function_sm) 1 0 0 (0, [])
     = Inr (9, function_sm, (1, [Call_transition 0 1 0, Call_on_undefined 1 0, Call_cleanup 9]))"
  by (simp add: engine_defs example_defs)

lemma function_sm_event_2:
  "state_machine_event (Some function_sm) 2 0 0 (0, [])
     = Inr (7, function_sm, (0, [Call_transition 0 2 7]))"
  by (simp add: engine_defs example_defs)

lemma no_locking_lock_take:
  "lock_take simple_sm 0 (0, []) = Inr (STATE_MACHINE_SUCCESS, (0, []))"
  "lock_take function_sm 0 (0, []) = Inr (STATE_MACHINE_SUCCESS, (0, []))"
  by (simp_all add: lock_take_no_locking simple_sm_def function_sm_def)

section \<open>The claims\<close>

subsection \<open>C1: when the state changes\<close>

text \<open>
  Claim C1. In a dispatch call that acquires the lock, \<open>current_state\<close> is set to the
  \<open>next_state\<close> of the resolved result exactly when the resolution status is success and
  the result is a \<open>Transition\<close>; in every other case (the resolver returned a nonzero
  status, or the result is a \<open>No_transition\<close>) the machine after the call is the machine
  before it. The resolution is what lines 234-259 compute after the lock was taken; the
  call is one that returns.
\<close>

theorem state_changes_iff_success_and_transition:
  assumes lk: "lock_take m flags env = Inr (STATE_MACHINE_SUCCESS, env1)"
    and res: "resolve_transition m STATE_MACHINE_SUCCESS (max_event m) (current_state m) event
                (data m) env1 = Inr (ret, tp, env2)"
    and ev: "state_machine_event (Some m) event event_data flags env = Inr (r, m', env')"
  shows "(\<forall>t. tp = Some t \<and> is_sm_success ret \<and> IS_TRANSITION t
              \<longrightarrow> m' = m\<lparr>current_state := next_state (result t)\<rparr>)
       \<and> (is_sm_failure ret \<or> (\<forall>t. tp = Some t \<longrightarrow> \<not> IS_TRANSITION t) \<longrightarrow> m' = m)"
proof -
  from event_returns [OF ev] lk res
  obtain c p where "change_state m ret tp (current_state m) (max_state m) = Inr (m', c, p)"
    by (auto simp add: is_sm_failure_def)
  from change_state_cases [OF this] show ?thesis
    by (auto simp add: IS_TRANSITION_def is_sm_failure_def is_sm_success_def)
qed

theorem state_changes_iff_success_and_transition_witness:
  "lock_take simple_sm 0 (0, []) = Inr (STATE_MACHINE_SUCCESS, (0, []))
   \<and> resolve_transition simple_sm STATE_MACHINE_SUCCESS (max_event simple_sm)
        (current_state simple_sm) 0 (data simple_sm) (0, [])
       = Inr (STATE_MACHINE_SUCCESS, Some (STATE_MACHINE_TRANSITION 0 0 1 (Some on_enter_simple)), (0, []))
   \<and> state_machine_event (Some simple_sm) 0 0 0 (0, [])
       = Inr (STATE_MACHINE_SUCCESS, simple_sm\<lparr>current_state := 1\<rparr>, (1, [Call_on_enter 0 1 0]))
   \<and> is_sm_success STATE_MACHINE_SUCCESS
   \<and> IS_TRANSITION (STATE_MACHINE_TRANSITION 0 0 1 (Some on_enter_simple) :: (nat, nat) State_machine_transition)
   \<and> simple_sm\<lparr>current_state := 1\<rparr>
       = simple_sm\<lparr>current_state :=
            next_state (result (STATE_MACHINE_TRANSITION 0 0 1 (Some on_enter_simple)
                                  :: (nat, nat) State_machine_transition))\<rparr>
   \<and> lock_take function_sm 0 (0, []) = Inr (STATE_MACHINE_SUCCESS, (0, []))
   \<and> resolve_transition function_sm STATE_MACHINE_SUCCESS (max_event function_sm)
        (current_state function_sm) 2 (data function_sm) (0, [])
       = Inr (7, None, (0, [Call_transition 0 2 7]))
   \<and> state_machine_event (Some function_sm) 2 0 0 (0, [])
       = Inr (7, function_sm, (0, [Call_transition 0 2 7]))
   \<and> is_sm_failure 7"
proof -
  let ?t = "STATE_MACHINE_TRANSITION 0 0 1 (Some on_enter_simple) :: (nat, nat) State_machine_transition"
  have res: "resolve_transition simple_sm STATE_MACHINE_SUCCESS (max_event simple_sm)
        (current_state simple_sm) 0 (data simple_sm) (0, [])
       = Inr (STATE_MACHINE_SUCCESS, Some ?t, (0, []))"
    by (simp add: resolve_transition_def table_entry_def example_defs)
  have ok: "is_sm_success STATE_MACHINE_SUCCESS" by (simp add: is_sm_success_def)
  have tr: "IS_TRANSITION ?t" by (simp add: IS_TRANSITION_def STATE_MACHINE_TRANSITION_def)
  from state_changes_iff_success_and_transition
         [OF no_locking_lock_take(1) res simple_sm_event_inc] ok tr
  have moved: "simple_sm\<lparr>current_state := 1\<rparr> = simple_sm\<lparr>current_state := next_state (result ?t)\<rparr>"
    by blast
  have res2: "resolve_transition function_sm STATE_MACHINE_SUCCESS (max_event function_sm)
        (current_state function_sm) 2 (data function_sm) (0, [])
       = Inr (7, None, (0, [Call_transition 0 2 7]))"
    by (simp add: resolve_transition_def example_defs)
  have bad: "is_sm_failure 7" by (simp add: is_sm_failure_def STATE_MACHINE_SUCCESS_def)
  from state_changes_iff_success_and_transition
         [OF no_locking_lock_take(2) res2 function_sm_event_2] bad
  have "function_sm = function_sm" by blast
  with res ok tr moved res2 bad show ?thesis
    by (simp add: no_locking_lock_take simple_sm_event_inc function_sm_event_2)
qed

subsection \<open>C2: the current state stays below the bound\<close>

text \<open>
  Claim C2. For a machine constructed with \<open>init_state < max_state\<close> whose strategy only
  produces \<open>Transition\<close> results with \<open>next_state < max_state\<close>, the invariant
  \<open>current_state < max_state\<close> holds after initialisation (by either initialiser), is
  preserved by every \<open>state_machine_event\<close> call with \<open>event < max_event\<close>, whose
  assertion of line 274 then cannot fail, and is preserved by every
  \<open>state_machine_current_state\<close> call, which leaves the machine as it was.
\<close>

theorem current_state_below_max_state:
  "(init_state < max_state' \<longrightarrow>
      (\<forall>m0. state_machine_init_table sm max_state' max_event' init_state locking tbl d = Inr m0
            \<longrightarrow> current_state m0 = init_state \<and> current_state m0 < max_state m0)
    \<and> (\<forall>m0. state_machine_init_function sm max_state' max_event' init_state locking tf cl d = Inr m0
            \<longrightarrow> current_state m0 = init_state \<and> current_state m0 < max_state m0))
 \<and> (current_state m < max_state m \<and> produces_states_below_max m \<and> event < max_event m \<longrightarrow>
      state_machine_event (Some m) event ed flags env
        \<noteq> Inl (Assertion_failed New_state_below_max_state)
    \<and> (\<forall>r m' env'. state_machine_event (Some m) event ed flags env = Inr (r, m', env')
            \<longrightarrow> current_state m' < max_state m' \<and> max_state m' = max_state m
                \<and> produces_states_below_max m'))
 \<and> (current_state m < max_state m \<longrightarrow>
      (\<forall>r m' c env'. state_machine_current_state (Some m) st flags env = Inr (r, m', c, env')
            \<longrightarrow> m' = m \<and> current_state m' < max_state m'))"
proof (intro conjI impI allI)
  fix m0
  assume "init_state < max_state'"
    and "state_machine_init_table sm max_state' max_event' init_state locking tbl d = Inr m0"
  then show "current_state m0 = init_state" and "current_state m0 < max_state m0"
    by (auto simp add: init_defs split: option.splits if_splits)
next
  fix m0
  assume "init_state < max_state'"
    and "state_machine_init_function sm max_state' max_event' init_state locking tf cl d = Inr m0"
  then show "current_state m0 = init_state" and "current_state m0 < max_state m0"
    by (auto simp add: init_defs split: option.splits if_splits)
next
  assume inv: "current_state m < max_state m \<and> produces_states_below_max m \<and> event < max_event m"
  show "state_machine_event (Some m) event ed flags env
          \<noteq> Inl (Assertion_failed New_state_below_max_state)"
  proof
    assume "state_machine_event (Some m) event ed flags env
              = Inl (Assertion_failed New_state_below_max_state)"
    from event_new_state_fault [OF this]
    obtain env1 ret tp env2 m' c p where
      res: "resolve_transition m STATE_MACHINE_SUCCESS (max_event m) (current_state m) event
              (data m) env1 = Inr (ret, tp, env2)"
      and chg: "change_state m ret tp (current_state m) (max_state m) = Inr (m', c, p)"
      and big: "\<not> c < max_state m"
      by blast
    from resolve_below_max [OF _ res] inv have "next_state_below_max (max_state m) tp" by simp
    from change_state_below_max [OF this _ chg] inv have "c < max_state m" by simp
    with big show False by simp
  qed
next
  fix r m' env'
  assume inv: "current_state m < max_state m \<and> produces_states_below_max m \<and> event < max_event m"
    and ev: "state_machine_event (Some m) event ed flags env = Inr (r, m', env')"
  from event_fields_kept [OF ev] event_returns [OF ev] inv
  show "current_state m' < max_state m'" and "max_state m' = max_state m" by auto
  from event_fields_kept [OF ev] inv
  show "produces_states_below_max m'"
    by (simp add: produces_states_below_max_def split: implementation.splits option.splits)
next
  fix r m' c env'
  assume "current_state m < max_state m"
    and "state_machine_current_state (Some m) st flags env = Inr (r, m', c, env')"
  then show "m' = m" and "current_state m' < max_state m'"
    by (auto simp add: state_machine_current_state_def
        split: option.splits sum.splits prod.splits if_splits)
qed

theorem current_state_below_max_state_witness:
  "(0 :: uint32_t) < 3
   \<and> state_machine_init_table (Some zeroed_sm) 3 2 0 STATE_MACHINE_NO_LOCKING
        (Some transition_table) 0 = Inr simple_sm
   \<and> state_machine_init_function (Some zeroed_sm) 3 2 0 STATE_MACHINE_NO_LOCKING
        (Some example_transition) (Some example_cleanup) 0
       = Inr (function_sm\<lparr>max_state := 3, max_event := 2\<rparr>)
   \<and> current_state simple_sm < max_state simple_sm
   \<and> produces_states_below_max simple_sm
   \<and> (0 :: uint32_t) < max_event simple_sm
   \<and> state_machine_event (Some simple_sm) 0 0 0 (0, [])
       = Inr (STATE_MACHINE_SUCCESS, simple_sm\<lparr>current_state := 1\<rparr>, (1, [Call_on_enter 0 1 0]))
   \<and> current_state (simple_sm\<lparr>current_state := 1\<rparr>) < max_state (simple_sm\<lparr>current_state := 1\<rparr>)
   \<and> state_machine_current_state (Some simple_sm) (Some 7) 0 (0, [])
       = Inr (STATE_MACHINE_SUCCESS, simple_sm, 0, (0, []))"
proof -
  have init: "(0 :: uint32_t) < 3" by simp
  have tab: "state_machine_init_table (Some zeroed_sm) 3 2 0 STATE_MACHINE_NO_LOCKING
        (Some transition_table) 0 = Inr simple_sm"
    by (simp add: init_defs simple_sm_def zeroed_sm_def STATE_MACHINE_NO_LOCKING_def
        ASSERT_LOCKING_DEFINITION_CONSISTENCY_def)
  have fn: "state_machine_init_function (Some zeroed_sm) 3 2 0 STATE_MACHINE_NO_LOCKING
        (Some example_transition) (Some example_cleanup) 0
       = Inr (function_sm\<lparr>max_state := 3, max_event := 2\<rparr>)"
    by (simp add: init_defs function_sm_def zeroed_sm_def STATE_MACHINE_NO_LOCKING_def
        ASSERT_LOCKING_DEFINITION_CONSISTENCY_def)
  have inv: "current_state simple_sm < max_state simple_sm" by (simp add: simple_sm_def)
  have str: "produces_states_below_max simple_sm"
    by (simp add: produces_states_below_max_def next_state_below_max_def example_defs)
  have evb: "(0 :: uint32_t) < max_event simple_sm" by (simp add: simple_sm_def)
  have rd: "state_machine_current_state (Some simple_sm) (Some 7) 0 (0, [])
       = Inr (STATE_MACHINE_SUCCESS, simple_sm, 0, (0, []))"
    by (simp add: engine_defs example_defs)
  note inst = current_state_below_max_state
         [where init_state = 0 and max_state' = 3 and max_event' = 2 and sm = "Some zeroed_sm"
            and locking = STATE_MACHINE_NO_LOCKING and tbl = "Some transition_table" and d = 0
            and tf = "Some example_transition" and cl = "Some example_cleanup"
            and m = simple_sm and event = 0 and ed = 0 and flags = 0 and env = "(0, [])"
            and st = "Some 7"]
  note step = inst [THEN conjunct2, THEN conjunct1, THEN mp, OF conjI [OF inv conjI [OF str evb]],
                    THEN conjunct2, THEN spec, THEN spec, THEN spec, THEN mp,
                    OF simple_sm_event_inc]
  from step
  have "current_state (simple_sm\<lparr>current_state := 1\<rparr>) < max_state (simple_sm\<lparr>current_state := 1\<rparr>)"
    by (rule conjunct1)
  with init tab fn inv str evb rd show ?thesis
    by (simp add: simple_sm_event_inc)
qed

subsection \<open>C3: the locking argument is not examined\<close>

text \<open>
  Claim C3 says that initialising with a partial locking argument (some but not all of
  \<open>try_take\<close>, \<open>take\<close>, \<open>give\<close> non-NULL) fails the initialiser's consistency assertion.
  The assertion of line 88 examines \<open>SM_LOCK(sm)\<close>, the lock found in the memory to be
  initialised, not the argument. On zeroed memory the partial argument passes and is
  stored; the first dispatch on the machine then stops at the assertion of \<open>lock_take\<close>.
  And a consistent argument is refused when the memory held a partial lock before.
\<close>

theorem init_accepts_partial_locking:
  "\<not> ASSERT_LOCKING_DEFINITION_CONSISTENCY partial_locking
   \<and> state_machine_init_table (Some zeroed_sm) 3 2 0 partial_locking (Some transition_table) 0
       = Inr (simple_sm\<lparr>lock := partial_locking\<rparr>)
   \<and> state_machine_init_function (Some zeroed_sm) 2 3 0 partial_locking
        (Some example_transition) (Some example_cleanup) 0
       = Inr (function_sm\<lparr>lock := partial_locking\<rparr>)
   \<and> state_machine_event (Some (simple_sm\<lparr>lock := partial_locking\<rparr>)) 0 0 0 (0, [])
       = Inl (Assertion_failed Locking_definition_consistency)
   \<and> state_machine_init_table (Some (zeroed_sm\<lparr>lock := partial_locking\<rparr>)) 3 2 0
        STATE_MACHINE_NO_LOCKING (Some transition_table) 0
       = Inl (Assertion_failed Locking_definition_consistency)"
  by (simp add: init_defs engine_defs simple_sm_def function_sm_def zeroed_sm_def
      partial_locking_def STATE_MACHINE_NO_LOCKING_def)

subsection \<open>C4: how often the cleanup function runs\<close>

text \<open>
  Claim C4 says that every dispatch call on a machine with a transition function and a
  non-NULL cleanup function invokes cleanup exactly once. The dispatch of event 2 on
  \<open>function_sm\<close>, whose transition function fails there with status 7, returns at line 291
  and invokes no cleanup.
\<close>

theorem cleanup_skipped_on_failed_resolution:
  "transition function_sm = Function (Some example_transition) (Some example_cleanup)
   \<and> state_machine_event (Some function_sm) 2 0 0 (0, [])
       = Inr (7, function_sm, (0, [Call_transition 0 2 7]))
   \<and> cleanup_calls [Call_transition 0 2 7] = 0"
  by (simp add: function_sm_event_2 cleanup_calls_def) (simp add: function_sm_def)

text \<open>
  Claim C4, amended. A dispatch call on a machine with a transition function and a
  non-NULL cleanup function that acquires the lock and whose transition function
  returns success invokes cleanup exactly once, whatever the result is (\<open>Transition\<close> or
  \<open>No_transition\<close>); a dispatch call on a machine with a table never invokes cleanup.
\<close>

theorem cleanup_once_after_successful_resolution:
  "(transition m = Function (Some f) (Some c)
      \<and> lock_take m flags env = Inr (STATE_MACHINE_SUCCESS, env1)
      \<and> f (current_state m) event (data m) (fst env1) = (STATE_MACHINE_SUCCESS, tp, w2)
      \<and> state_machine_event (Some m) event ed flags env = Inr (r, m', env')
     \<longrightarrow> cleanup_calls (snd env') = cleanup_calls (snd env) + 1)
 \<and> (SM_USING_TRANSITION_TABLE mt
      \<and> state_machine_event (Some mt) eventt edt flagst envt = Inr (rt, mt', envt')
     \<longrightarrow> cleanup_calls (snd envt') = cleanup_calls (snd envt))"
proof (intro conjI impI)
  assume a: "transition m = Function (Some f) (Some c)
      \<and> lock_take m flags env = Inr (STATE_MACHINE_SUCCESS, env1)
      \<and> f (current_state m) event (data m) (fst env1) = (STATE_MACHINE_SUCCESS, tp, w2)
      \<and> state_machine_event (Some m) event ed flags env = Inr (r, m', env')"
  then have ev: "state_machine_event (Some m) event ed flags env = Inr (r, m', env')" by simp
  let ?env2 = "(w2, snd env1 @ [Call_transition (current_state m) event STATE_MACHINE_SUCCESS])"
  from a have res: "resolve_transition m STATE_MACHINE_SUCCESS (max_event m) (current_state m)
                      event (data m) env1 = Inr (STATE_MACHINE_SUCCESS, tp, ?env2)"
    by (simp add: resolve_transition_def)
  from event_returns [OF ev] a res
  obtain cs p env3 env4 where
    chg: "change_state m STATE_MACHINE_SUCCESS tp (current_state m) (max_state m) = Inr (m', cs, p)"
    and gv: "lock_give m' ?env2 = Inr env3"
    and cb: "invoke_callback tp event cs p ed (data m) env3 = Inr env4"
    and cl: "invoke_cleanup m' STATE_MACHINE_SUCCESS (data m) tp env4 = (r, env')"
    by (auto simp add: is_sm_failure_def)
  from change_state_fields [OF chg] a have "transition m' = Function (Some f) (Some c)" by simp
  with invoke_cleanup_cleanup_calls [OF cl]
  have "cleanup_calls (snd env') = cleanup_calls (snd env4) + 1" by simp
  also from invoke_callback_cleanup_calls [OF cb]
  have "cleanup_calls (snd env4) = cleanup_calls (snd env3)" .
  also from lock_give_cleanup_calls [OF gv]
  have "cleanup_calls (snd env3) = cleanup_calls (snd env1)"
    by (simp add: cleanup_calls_def)
  also from a lock_take_cleanup_calls
  have "cleanup_calls (snd env1) = cleanup_calls (snd env)" by blast
  finally show "cleanup_calls (snd env') = cleanup_calls (snd env) + 1" .
next
  assume a: "SM_USING_TRANSITION_TABLE mt
      \<and> state_machine_event (Some mt) eventt edt flagst envt = Inr (rt, mt', envt')"
  then have ev: "state_machine_event (Some mt) eventt edt flagst envt = Inr (rt, mt', envt')"
    by simp
  from a obtain tbl where "transition mt = Table tbl"
    by (auto simp add: SM_USING_TRANSITION_TABLE_def split: implementation.splits)
  with event_fields_kept [OF ev] have tm: "transition mt' = Table tbl" by simp
  from event_returns [OF ev] show "cleanup_calls (snd envt') = cleanup_calls (snd envt)"
  proof (elim disjE exE conjE)
    fix ret0 assume "lock_take mt flagst envt = Inr (ret0, envt')"
    then show ?thesis by (rule lock_take_cleanup_calls)
  next
    fix env1 ret tp env2 c p env3
    assume lk: "lock_take mt flagst envt = Inr (STATE_MACHINE_SUCCESS, env1)"
      and res: "resolve_transition mt STATE_MACHINE_SUCCESS (max_event mt) (current_state mt)
                  eventt (data mt) env1 = Inr (ret, tp, env2)"
      and gv: "lock_give mt' env2 = Inr env3"
      and rest: "if is_sm_failure ret then rt = ret \<and> envt' = env3
               else \<exists>env4. invoke_callback tp eventt c p edt (data mt) env3 = Inr env4
                          \<and> invoke_cleanup mt' ret (data mt) tp env4 = (rt, envt')"
    have "cleanup_calls (snd envt') = cleanup_calls (snd env3)"
    proof (cases "is_sm_failure ret")
      case True
      with rest show ?thesis by simp
    next
      case False
      with rest obtain env4 where
        cb: "invoke_callback tp eventt c p edt (data mt) env3 = Inr env4"
        and cl: "invoke_cleanup mt' ret (data mt) tp env4 = (rt, envt')"
        by auto
      from invoke_cleanup_cleanup_calls [OF cl] tm invoke_callback_cleanup_calls [OF cb]
      show ?thesis by simp
    qed
    with lock_give_cleanup_calls [OF gv] resolve_transition_cleanup_calls [OF res]
      lock_take_cleanup_calls [OF lk]
    show ?thesis by simp
  qed
qed

theorem cleanup_once_after_successful_resolution_witness:
  "transition function_sm = Function (Some example_transition) (Some example_cleanup)
   \<and> lock_take function_sm 0 (0, []) = Inr (STATE_MACHINE_SUCCESS, (0, []))
   \<and> example_transition (current_state function_sm) 0 (data function_sm) (fst (0 :: nat, [] :: call list))
       = (STATE_MACHINE_SUCCESS, Some (STATE_MACHINE_TRANSITION 0 0 1 (Some on_enter_simple)), 0)
   \<and> state_machine_event (Some function_sm) 0 0 0 (0, [])
       = Inr (9, function_sm\<lparr>current_state := 1\<rparr>,
              (1, [Call_transition 0 0 0, Call_on_enter 0 1 0, Call_cleanup 9]))
   \<and> cleanup_calls [Call_transition 0 0 0, Call_on_enter 0 1 0, Call_cleanup 9] = cleanup_calls [] + 1
   \<and> example_transition (current_state function_sm) 1 (data function_sm) (fst (0 :: nat, [] :: call list))
       = (STATE_MACHINE_SUCCESS, Some (STATE_MACHINE_NO_TRANSITION 0 1 (Some on_undefined_simple)), 0)
   \<and> state_machine_event (Some function_sm) 1 0 0 (0, [])
       = Inr (9, function_sm, (1, [Call_transition 0 1 0, Call_on_undefined 1 0, Call_cleanup 9]))
   \<and> cleanup_calls [Call_transition 0 1 0, Call_on_undefined 1 0, Call_cleanup 9] = cleanup_calls [] + 1
   \<and> SM_USING_TRANSITION_TABLE simple_sm
   \<and> state_machine_event (Some simple_sm) 0 0 0 (0, [])
       = Inr (STATE_MACHINE_SUCCESS, simple_sm\<lparr>current_state := 1\<rparr>, (1, [Call_on_enter 0 1 0]))
   \<and> cleanup_calls [Call_on_enter 0 1 0] = cleanup_calls []"
proof -
  have fn: "transition function_sm = Function (Some example_transition) (Some example_cleanup)"
    by (simp add: function_sm_def)
  have r0: "example_transition (current_state function_sm) 0 (data function_sm)
              (fst (0 :: nat, [] :: call list))
       = (STATE_MACHINE_SUCCESS, Some (STATE_MACHINE_TRANSITION 0 0 1 (Some on_enter_simple)), 0)"
    by (simp add: example_transition_def function_sm_def STATE_MACHINE_SUCCESS_def)
  have r1: "example_transition (current_state function_sm) 1 (data function_sm)
              (fst (0 :: nat, [] :: call list))
       = (STATE_MACHINE_SUCCESS, Some (STATE_MACHINE_NO_TRANSITION 0 1 (Some on_undefined_simple)), 0)"
    by (simp add: example_transition_def function_sm_def STATE_MACHINE_SUCCESS_def)
  have tb: "SM_USING_TRANSITION_TABLE simple_sm"
    by (simp add: SM_USING_TRANSITION_TABLE_def simple_sm_def)
  note once = cleanup_once_after_successful_resolution [THEN conjunct1, THEN mp]
  note never = cleanup_once_after_successful_resolution [THEN conjunct2, THEN mp]
  from once [OF conjI [OF fn conjI [OF no_locking_lock_take(2) conjI [OF r0 function_sm_event_0]]]]
  have c0: "cleanup_calls [Call_transition 0 0 0, Call_on_enter 0 1 0, Call_cleanup 9]
              = cleanup_calls [] + 1"
    by simp
  from once [OF conjI [OF fn conjI [OF no_locking_lock_take(2) conjI [OF r1 function_sm_event_1]]]]
  have c1: "cleanup_calls [Call_transition 0 1 0, Call_on_undefined 1 0, Call_cleanup 9]
              = cleanup_calls [] + 1"
    by simp
  from never [OF conjI [OF tb simple_sm_event_inc]]
  have c2: "cleanup_calls [Call_on_enter 0 1 0] = cleanup_calls []"
    by simp
  from fn r0 r1 tb c0 c1 c2 show ?thesis
    by (simp add: no_locking_lock_take function_sm_event_0 function_sm_event_1 simple_sm_event_inc)
qed

subsection \<open>C5: a failed resolution is propagated\<close>

text \<open>
  Claim C5. When, in a dispatch on a machine with a transition function, the transition
  function returns a nonzero status, \<open>state_machine_event\<close> returns that status and the
  machine unchanged, and the calls it makes after taking the lock are the transition
  function and, with locking, \<open>give\<close>: neither \<open>on_enter\<close> nor
  \<open>on_undefined_transition\<close> nor the cleanup function is invoked. The transition
  function is reached when the lock was taken and the assertions of lines 231-232 hold.
\<close>

theorem failed_resolution_status_propagates:
  assumes "transition m = Function (Some f) c"
    and "lock_take m flags env = Inr (STATE_MACHINE_SUCCESS, env1)"
    and "event < max_event m" and "current_state m < max_state m"
    and "f (current_state m) event (data m) (fst env1) = (st, tp, w2)"
    and "st \<noteq> STATE_MACHINE_SUCCESS"
  shows "\<exists>w'. state_machine_event (Some m) event event_data flags env =
           Inr (st, m, (w', snd env1 @ Call_transition (current_state m) event st #
                              (if USE_LOCKING m then [Call_give] else [])))"
proof -
  from assms(2) have cons: "ASSERT_LOCKING_DEFINITION_CONSISTENCY (lock m)"
    by (auto simp add: lock_take_def split: if_splits)
  let ?env2 = "(w2, snd env1 @ [Call_transition (current_state m) event st])"
  from assms(1,5)
  have res: "resolve_transition m STATE_MACHINE_SUCCESS (max_event m) (current_state m) event
               (data m) env1 = Inr (st, tp, ?env2)"
    by (simp add: resolve_transition_def)
  from assms(6)
  have chg: "change_state m st tp (current_state m) (max_state m)
               = Inr (m, current_state m, max_state m)"
    by (simp add: change_state_def is_sm_success_def)
  from cons obtain w' where
    gv: "lock_give m ?env2
           = Inr (w', snd env1 @ Call_transition (current_state m) event st #
                        (if USE_LOCKING m then [Call_give] else []))"
    by (auto simp add: lock_give_def USE_LOCKING_def ASSERT_LOCKING_DEFINITION_CONSISTENCY_def)
  from assms(2,3,4,6) res chg gv
  have "state_machine_event (Some m) event event_data flags env =
           Inr (st, m, (w', snd env1 @ Call_transition (current_state m) event st #
                              (if USE_LOCKING m then [Call_give] else [])))"
    by (simp add: state_machine_event_def is_sm_failure_def)
  then show ?thesis ..
qed

theorem failed_resolution_status_propagates_witness:
  "transition function_sm = Function (Some example_transition) (Some example_cleanup)
   \<and> lock_take function_sm 0 (0, []) = Inr (STATE_MACHINE_SUCCESS, (0, []))
   \<and> 2 < max_event function_sm
   \<and> current_state function_sm < max_state function_sm
   \<and> example_transition (current_state function_sm) 2 (data function_sm) (fst (0 :: nat, [] :: call list))
       = (7, None, 0)
   \<and> 7 \<noteq> STATE_MACHINE_SUCCESS
   \<and> (\<exists>w'. state_machine_event (Some function_sm) 2 5 0 (0, [])
             = Inr (7, function_sm, (w', [Call_transition 0 2 7])))"
proof -
  have fn: "transition function_sm = Function (Some example_transition) (Some example_cleanup)"
    by (simp add: function_sm_def)
  have e: "2 < max_event function_sm" and s: "current_state function_sm < max_state function_sm"
    by (simp_all add: function_sm_def)
  have r: "example_transition (current_state function_sm) 2 (data function_sm)
             (fst (0 :: nat, [] :: call list)) = (7, None, 0)"
    by (simp add: example_transition_def function_sm_def)
  have n: "7 \<noteq> STATE_MACHINE_SUCCESS" by (simp add: STATE_MACHINE_SUCCESS_def)
  from failed_resolution_status_propagates [OF fn no_locking_lock_take(2) e s r n, of 5]
  have "\<exists>w'. state_machine_event (Some function_sm) 2 5 0 (0, [])
             = Inr (7, function_sm, (w', [Call_transition 0 2 7]))"
    by (simp add: USE_LOCKING_def function_sm_def STATE_MACHINE_NO_LOCKING_def)
  with fn e s r n show ?thesis
    by (simp add: no_locking_lock_take)
qed

subsection \<open>C6: a nonblocking dispatch that does not get the lock\<close>

text \<open>
  Claim C6. With \<open>STATE_MACHINE_NONBLOCK\<close> set in the flags, on a machine with locking
  (all three functions non-NULL), when \<open>try_take\<close> fails \<open>state_machine_event\<close> returns
  \<open>STATE_MACHINE_WOULD_BLOCK\<close>, the machine is unchanged, and the only call made is
  \<open>try_take\<close>: no transition function, callback or cleanup function is invoked.
\<close>

theorem nonblocking_event_would_block:
  assumes "try_take (lock m) = Some tt"
    and "take_lock (lock m) \<noteq> None" and "give (lock m) \<noteq> None"
    and "flags AND STATE_MACHINE_NONBLOCK \<noteq> 0"
    and "tt w = (False, w')"
  shows "state_machine_event (Some m) event event_data flags (w, log) =
           Inr (STATE_MACHINE_WOULD_BLOCK, m, (w', log @ [Call_try_take False]))"
proof -
  from assms
  have "lock_take m flags (w, log) = Inr (STATE_MACHINE_WOULD_BLOCK, (w', log @ [Call_try_take False]))"
    by (simp add: lock_take_def USE_LOCKING_def ASSERT_LOCKING_DEFINITION_CONSISTENCY_def)
  then show ?thesis
    by (simp add: state_machine_event_def is_sm_failure_def STATE_MACHINE_WOULD_BLOCK_def
        STATE_MACHINE_SUCCESS_def)
qed

theorem nonblocking_event_would_block_witness:
  "try_take (lock locked_sm) = Some (\<lambda>held. (\<not> held, True))
   \<and> take_lock (lock locked_sm) \<noteq> None \<and> give (lock locked_sm) \<noteq> None
   \<and> STATE_MACHINE_NONBLOCK AND STATE_MACHINE_NONBLOCK \<noteq> 0
   \<and> (\<lambda>held. (\<not> held, True)) True = (False, True)
   \<and> state_machine_event (Some locked_sm) 0 0 STATE_MACHINE_NONBLOCK (True, [])
       = Inr (STATE_MACHINE_WOULD_BLOCK, locked_sm, (True, [Call_try_take False]))"
proof -
  have tt: "try_take (lock locked_sm) = Some (\<lambda>held. (\<not> held, True))"
    and tk: "take_lock (lock locked_sm) \<noteq> None" and gv: "give (lock locked_sm) \<noteq> None"
    by (simp_all add: locked_sm_def example_locking_def)
  have fl: "STATE_MACHINE_NONBLOCK AND STATE_MACHINE_NONBLOCK \<noteq> 0"
    by (simp add: STATE_MACHINE_NONBLOCK_def)
  have held: "(\<lambda>held. (\<not> held, True)) True = (False, True)" by simp
  from nonblocking_event_would_block [OF tt tk gv fl held, of 0 0 "[]"]
  have "state_machine_event (Some locked_sm) 0 0 STATE_MACHINE_NONBLOCK (True, [])
       = Inr (STATE_MACHINE_WOULD_BLOCK, locked_sm, (True, [Call_try_take False]))"
    by simp
  with tt tk gv fl show ?thesis by simp
qed

subsection \<open>C7: the status of the cleanup function is the status of the dispatch\<close>

text \<open>
  Claim C7. In a dispatch on a machine with a transition function and a non-NULL
  cleanup function that reaches the cleanup step (the log of the call, started empty,
  holds a call of cleanup with status \<open>st\<close>), \<open>st\<close> is the status \<open>cleanup(data, transition)\<close>
  returned and is the status \<open>state_machine_event\<close> returns, and the state change made
  earlier in the call persists whatever \<open>st\<close> is: when the resolved result is a
  \<open>Transition\<close>, the machine returned has its \<open>next_state\<close> as current state.
\<close>

theorem cleanup_status_is_final:
  assumes fn: "transition m = Function tf (Some c)"
    and lk: "lock_take m flags (w, []) = Inr (STATE_MACHINE_SUCCESS, env1)"
    and res: "resolve_transition m STATE_MACHINE_SUCCESS (max_event m) (current_state m) event
                (data m) env1 = Inr (ret, tp, env2)"
    and ev: "state_machine_event (Some m) event ed flags (w, []) = Inr (r, m', (w', log))"
    and cl: "Call_cleanup st \<in> set log"
  shows "r = st \<and> (\<exists>w4. c (data m) tp w4 = (st, w'))
       \<and> (\<forall>t. tp = Some t \<and> IS_TRANSITION t
              \<longrightarrow> m' = m\<lparr>current_state := next_state (result t)\<rparr>)"
proof -
  from event_returns [OF ev] lk res
  obtain cs p env3 where
    chg: "change_state m ret tp (current_state m) (max_state m) = Inr (m', cs, p)"
    and gv: "lock_give m' env2 = Inr env3"
    and rest: "if is_sm_failure ret then r = ret \<and> (w', log) = env3
               else \<exists>env4. invoke_callback tp event cs p ed (data m) env3 = Inr env4
                          \<and> invoke_cleanup m' ret (data m) tp env4 = (r, (w', log))"
    by (auto simp add: is_sm_failure_def)
  have none3: "Call_cleanup st \<notin> set (snd env3)"
    using lock_take_cleanup_mem [OF lk, of st] resolve_transition_cleanup_mem [OF res, of st]
      lock_give_cleanup_mem [OF gv, of st] by simp
  have ok: "\<not> is_sm_failure ret"
  proof
    assume "is_sm_failure ret"
    with rest have "(w', log) = env3" by simp
    with none3 cl show False by auto
  qed
  with rest obtain env4 where
    cb: "invoke_callback tp event cs p ed (data m) env3 = Inr env4"
    and cu: "invoke_cleanup m' ret (data m) tp env4 = (r, (w', log))"
    by auto
  from change_state_fields [OF chg] fn have fn': "transition m' = Function tf (Some c)" by simp
  from invoke_cleanup_Some [OF fn' cu]
  have call: "c (data m) tp (fst env4) = (r, w')" and log: "log = snd env4 @ [Call_cleanup r]"
    by simp_all
  from invoke_callback_cleanup_mem [OF cb, of st] none3
  have "Call_cleanup st \<notin> set (snd env4)" by simp
  with cl log have "r = st" by auto
  moreover from call \<open>r = st\<close> have "\<exists>w4. c (data m) tp w4 = (st, w')" by blast
  moreover from change_state_cases [OF chg] ok
  have "\<forall>t. tp = Some t \<and> IS_TRANSITION t
          \<longrightarrow> m' = m\<lparr>current_state := next_state (result t)\<rparr>"
    by (auto simp add: IS_TRANSITION_def)
  ultimately show ?thesis by simp
qed

theorem cleanup_status_is_final_witness:
  "transition function_sm = Function (Some example_transition) (Some example_cleanup)
   \<and> lock_take function_sm 0 (0, []) = Inr (STATE_MACHINE_SUCCESS, (0, []))
   \<and> resolve_transition function_sm STATE_MACHINE_SUCCESS (max_event function_sm)
        (current_state function_sm) 0 (data function_sm) (0, [])
       = Inr (0, Some (STATE_MACHINE_TRANSITION 0 0 1 (Some on_enter_simple)), (0, [Call_transition 0 0 0]))
   \<and> state_machine_event (Some function_sm) 0 0 0 (0, [])
       = Inr (9, function_sm\<lparr>current_state := 1\<rparr>,
              (1, [Call_transition 0 0 0, Call_on_enter 0 1 0, Call_cleanup 9]))
   \<and> Call_cleanup 9 \<in> set [Call_transition 0 0 0, Call_on_enter 0 1 0, Call_cleanup 9]
   \<and> 9 \<noteq> STATE_MACHINE_SUCCESS
   \<and> IS_TRANSITION (STATE_MACHINE_TRANSITION 0 0 1 (Some on_enter_simple) :: (nat, nat) State_machine_transition)
   \<and> current_state (function_sm\<lparr>current_state := 1\<rparr>)
       = next_state (result (STATE_MACHINE_TRANSITION 0 0 1 (Some on_enter_simple)
                               :: (nat, nat) State_machine_transition))
   \<and> current_state function_sm \<noteq> current_state (function_sm\<lparr>current_state := 1\<rparr>)"
proof -
  let ?t = "STATE_MACHINE_TRANSITION 0 0 1 (Some on_enter_simple) :: (nat, nat) State_machine_transition"
  have fn: "transition function_sm = Function (Some example_transition) (Some example_cleanup)"
    by (simp add: function_sm_def)
  have res: "resolve_transition function_sm STATE_MACHINE_SUCCESS (max_event function_sm)
        (current_state function_sm) 0 (data function_sm) (0, [])
       = Inr (0, Some ?t, (0, [Call_transition 0 0 0]))"
    by (simp add: resolve_transition_def example_defs)
  have mem: "Call_cleanup 9 \<in> set [Call_transition 0 0 0, Call_on_enter 0 1 0, Call_cleanup 9]"
    by simp
  have tr: "IS_TRANSITION ?t" by (simp add: IS_TRANSITION_def STATE_MACHINE_TRANSITION_def)
  note fin = cleanup_status_is_final [OF fn no_locking_lock_take(2) res function_sm_event_0 mem]
  from fin tr
  have "function_sm\<lparr>current_state := 1\<rparr> = function_sm\<lparr>current_state := next_state (result ?t)\<rparr>"
    by blast
  then have "current_state (function_sm\<lparr>current_state := 1\<rparr>) = next_state (result ?t)"
    by (simp add: STATE_MACHINE_TRANSITION_def)
  with fn res mem tr show ?thesis
    by (simp add: no_locking_lock_take function_sm_event_0 STATE_MACHINE_SUCCESS_def)
       (simp add: function_sm_def)
qed

subsection \<open>C8: reading the current state\<close>

text \<open>
  Claim C8. A call of \<open>state_machine_current_state\<close> (on a machine whose locking is
  all-or-nothing, as its assertion demands, with non-NULL arguments): if
  \<open>STATE_MACHINE_NONBLOCK\<close> is set and \<open>try_take\<close> fails, it returns
  \<open>STATE_MACHINE_WOULD_BLOCK\<close> and the cell behind the output pointer keeps its content;
  otherwise it stores the machine's \<open>current_state\<close> there and returns
  \<open>STATE_MACHINE_SUCCESS\<close>.
\<close>

theorem current_state_read:
  assumes "ASSERT_LOCKING_DEFINITION_CONSISTENCY (lock m)"
  shows "(flags AND STATE_MACHINE_NONBLOCK \<noteq> 0
            \<and> (\<exists>tt. try_take (lock m) = Some tt \<and> \<not> fst (tt w))
          \<longrightarrow> (\<exists>w'. state_machine_current_state (Some m) (Some cell) flags (w, log) =
                  Inr (STATE_MACHINE_WOULD_BLOCK, m, cell, (w', log @ [Call_try_take False]))))
       \<and> (\<not> (flags AND STATE_MACHINE_NONBLOCK \<noteq> 0
               \<and> (\<exists>tt. try_take (lock m) = Some tt \<and> \<not> fst (tt w)))
          \<longrightarrow> (\<exists>env'. state_machine_current_state (Some m) (Some cell) flags (w, log) =
                  Inr (STATE_MACHINE_SUCCESS, m, current_state m, env')))"
  using assms by (auto simp add: engine_defs split: option.splits prod.splits)

theorem current_state_read_witness:
  "ASSERT_LOCKING_DEFINITION_CONSISTENCY (lock locked_sm)
   \<and> STATE_MACHINE_NONBLOCK AND STATE_MACHINE_NONBLOCK \<noteq> 0
   \<and> (\<exists>tt. try_take (lock locked_sm) = Some tt \<and> \<not> fst (tt True))
   \<and> (\<exists>w'. state_machine_current_state (Some locked_sm) (Some 7) STATE_MACHINE_NONBLOCK (True, [])
             = Inr (STATE_MACHINE_WOULD_BLOCK, locked_sm, 7, (w', [Call_try_take False])))
   \<and> \<not> (0 AND STATE_MACHINE_NONBLOCK \<noteq> 0
          \<and> (\<exists>tt. try_take (lock locked_sm) = Some tt \<and> \<not> fst (tt False)))
   \<and> (\<exists>env'. state_machine_current_state (Some locked_sm) (Some 7) 0 (False, [])
               = Inr (STATE_MACHINE_SUCCESS, locked_sm, current_state locked_sm, env'))
   \<and> current_state locked_sm = 0"
proof -
  have cons: "ASSERT_LOCKING_DEFINITION_CONSISTENCY (lock locked_sm)"
    by (simp add: ASSERT_LOCKING_DEFINITION_CONSISTENCY_def locked_sm_def example_locking_def)
  have fl: "STATE_MACHINE_NONBLOCK AND STATE_MACHINE_NONBLOCK \<noteq> 0"
    by (simp add: STATE_MACHINE_NONBLOCK_def)
  have fails: "\<exists>tt. try_take (lock locked_sm) = Some tt \<and> \<not> fst (tt True)"
    by (simp add: locked_sm_def example_locking_def)
  have blocking: "\<not> (0 AND STATE_MACHINE_NONBLOCK \<noteq> 0
          \<and> (\<exists>tt. try_take (lock locked_sm) = Some tt \<and> \<not> fst (tt False)))"
    by simp
  from current_state_read [OF cons, THEN conjunct1, THEN mp, OF conjI [OF fl fails], of 7 "[]"]
  have a: "\<exists>w'. state_machine_current_state (Some locked_sm) (Some 7) STATE_MACHINE_NONBLOCK (True, [])
             = Inr (STATE_MACHINE_WOULD_BLOCK, locked_sm, 7, (w', [Call_try_take False]))"
    by simp
  from current_state_read [OF cons, THEN conjunct2, THEN mp, OF blocking, of 7 "[]"]
  have b: "\<exists>env'. state_machine_current_state (Some locked_sm) (Some 7) 0 (False, [])
               = Inr (STATE_MACHINE_SUCCESS, locked_sm, current_state locked_sm, env')" .
  have "current_state locked_sm = 0" by (simp add: locked_sm_def)
  with cons fl fails blocking a b show ?thesis by simp
qed

subsection \<open>C9: machines without locking\<close>

text \<open>
  Claim C9 says that without locking \<open>state_machine_event\<close> never returns
  \<open>STATE_MACHINE_WOULD_BLOCK\<close>. The status of the transition function is returned as it
  is: on \<open>busy_sm\<close>, which has no locking and whose transition function returns 1, the
  dispatch returns 1, which is \<open>STATE_MACHINE_WOULD_BLOCK\<close>.
\<close>

theorem no_locking_event_returns_would_block:
  "lock busy_sm = STATE_MACHINE_NO_LOCKING
   \<and> state_machine_event (Some busy_sm) 0 0 STATE_MACHINE_NONBLOCK (0, [])
       = Inr (STATE_MACHINE_WOULD_BLOCK, busy_sm, (0, [Call_transition 0 0 1]))"
  by (simp add: engine_defs busy_sm_def busy_transition_def STATE_MACHINE_NO_LOCKING_def)

text \<open>
  Claim C9, amended. For a machine without locking (\<open>take\<close>, \<open>try_take\<close> and \<open>give\<close> all
  NULL) the flags have no effect: \<open>state_machine_event\<close> and
  \<open>state_machine_current_state\<close> do exactly what they do with flags 0, taking the lock
  always succeeds and calls nothing; \<open>state_machine_current_state\<close> never returns
  \<open>STATE_MACHINE_WOULD_BLOCK\<close>, and \<open>state_machine_event\<close> returns it only when it is the
  status that the transition function or the cleanup function returned in that call.
\<close>

theorem no_locking_ignores_nonblock:
  assumes nl: "lock m = STATE_MACHINE_NO_LOCKING"
  shows "state_machine_event (Some m) event ed flags env = state_machine_event (Some m) event ed 0 env
       \<and> state_machine_current_state (Some m) st flags env
           = state_machine_current_state (Some m) st 0 env
       \<and> lock_take m flags env = Inr (STATE_MACHINE_SUCCESS, env)
       \<and> (\<forall>r m' cell env'. state_machine_current_state (Some m) st flags env = Inr (r, m', cell, env')
              \<longrightarrow> r = STATE_MACHINE_SUCCESS \<and> env' = env)
       \<and> (\<forall>m' env'. state_machine_event (Some m) event ed flags env
                       = Inr (STATE_MACHINE_WOULD_BLOCK, m', env')
              \<longrightarrow> Call_transition (current_state m) event STATE_MACHINE_WOULD_BLOCK \<in> set (snd env')
                  \<or> Call_cleanup STATE_MACHINE_WOULD_BLOCK \<in> set (snd env'))"
proof (intro conjI allI impI)
  from lock_take_no_locking [OF nl]
  show "state_machine_event (Some m) event ed flags env = state_machine_event (Some m) event ed 0 env"
    by (simp add: state_machine_event_def)
  from lock_take_no_locking [OF nl]
  show "state_machine_current_state (Some m) st flags env
          = state_machine_current_state (Some m) st 0 env"
    by (simp add: state_machine_current_state_def split: option.splits)
  from nl show "lock_take m flags env = Inr (STATE_MACHINE_SUCCESS, env)"
    by (rule lock_take_no_locking)
next
  fix r m' cell env'
  assume "state_machine_current_state (Some m) st flags env = Inr (r, m', cell, env')"
  with lock_take_no_locking [OF nl] lock_give_no_locking [OF nl]
  show "r = STATE_MACHINE_SUCCESS" and "env' = env"
    by (auto simp add: state_machine_current_state_def is_sm_failure_def split: option.splits)
next
  fix m' env'
  assume ev: "state_machine_event (Some m) event ed flags env
                = Inr (STATE_MACHINE_WOULD_BLOCK, m', env')"
  have wb: "STATE_MACHINE_WOULD_BLOCK \<noteq> STATE_MACHINE_SUCCESS"
    by (simp add: STATE_MACHINE_WOULD_BLOCK_def STATE_MACHINE_SUCCESS_def)
  from event_returns [OF ev] lock_take_no_locking [OF nl, of flags env]
  obtain ret tp env2 c p env3 where
    res: "resolve_transition m STATE_MACHINE_SUCCESS (max_event m) (current_state m) event
            (data m) env = Inr (ret, tp, env2)"
    and chg: "change_state m ret tp (current_state m) (max_state m) = Inr (m', c, p)"
    and gv: "lock_give m' env2 = Inr env3"
    and rest: "if is_sm_failure ret then STATE_MACHINE_WOULD_BLOCK = ret \<and> env' = env3
               else \<exists>env4. invoke_callback tp event c p ed (data m) env3 = Inr env4
                          \<and> invoke_cleanup m' ret (data m) tp env4
                              = (STATE_MACHINE_WOULD_BLOCK, env')"
    by (auto simp add: is_sm_failure_def)
  from change_state_fields [OF chg] nl have "lock m' = STATE_MACHINE_NO_LOCKING" by simp
  from lock_give_no_locking [OF this] gv have e3: "env3 = env2" by simp
  show "Call_transition (current_state m) event STATE_MACHINE_WOULD_BLOCK \<in> set (snd env')
        \<or> Call_cleanup STATE_MACHINE_WOULD_BLOCK \<in> set (snd env')"
  proof (cases "is_sm_failure ret")
    case True
    with rest have "ret = STATE_MACHINE_WOULD_BLOCK" and "env' = env3" by simp_all
    with resolve_transition_status [OF res] e3 wb show ?thesis by auto
  next
    case False
    with rest obtain env4 where
      "invoke_cleanup m' ret (data m) tp env4 = (STATE_MACHINE_WOULD_BLOCK, env')" by auto
    from invoke_cleanup_status [OF this] False wb show ?thesis
      by (auto simp add: is_sm_failure_def)
  qed
qed

theorem no_locking_ignores_nonblock_witness:
  "lock simple_sm = STATE_MACHINE_NO_LOCKING
   \<and> state_machine_event (Some simple_sm) 0 0 STATE_MACHINE_NONBLOCK (0, [])
       = Inr (STATE_MACHINE_SUCCESS, simple_sm\<lparr>current_state := 1\<rparr>, (1, [Call_on_enter 0 1 0]))
   \<and> state_machine_current_state (Some simple_sm) (Some 7) STATE_MACHINE_NONBLOCK (0, [])
       = Inr (STATE_MACHINE_SUCCESS, simple_sm, 0, (0, []))
   \<and> lock_take simple_sm STATE_MACHINE_NONBLOCK (0, []) = Inr (STATE_MACHINE_SUCCESS, (0, []))
   \<and> lock busy_sm = STATE_MACHINE_NO_LOCKING
   \<and> state_machine_event (Some busy_sm) 0 0 STATE_MACHINE_NONBLOCK (0, [])
       = Inr (STATE_MACHINE_WOULD_BLOCK, busy_sm, (0, [Call_transition 0 0 1]))
   \<and> Call_transition (current_state busy_sm) 0 STATE_MACHINE_WOULD_BLOCK \<in> set [Call_transition 0 0 1]"
proof -
  have nl: "lock simple_sm = STATE_MACHINE_NO_LOCKING" by (simp add: simple_sm_def)
  have nb: "lock busy_sm = STATE_MACHINE_NO_LOCKING" by (simp add: busy_sm_def)
  note simple = no_locking_ignores_nonblock
    [OF nl, where event = 0 and ed = 0 and flags = STATE_MACHINE_NONBLOCK and env = "(0, [])"
       and st = "Some 7"]
  from simple [THEN conjunct1] simple_sm_event_inc
  have a: "state_machine_event (Some simple_sm) 0 0 STATE_MACHINE_NONBLOCK (0, [])
       = Inr (STATE_MACHINE_SUCCESS, simple_sm\<lparr>current_state := 1\<rparr>, (1, [Call_on_enter 0 1 0]))"
    by simp
  have "state_machine_current_state (Some simple_sm) (Some 7) 0 (0, [])
       = Inr (STATE_MACHINE_SUCCESS, simple_sm, 0, (0, []))"
    by (simp add: engine_defs example_defs)
  with simple [THEN conjunct2, THEN conjunct1]
  have b: "state_machine_current_state (Some simple_sm) (Some 7) STATE_MACHINE_NONBLOCK (0, [])
       = Inr (STATE_MACHINE_SUCCESS, simple_sm, 0, (0, []))"
    by simp
  note c = simple [THEN conjunct2, THEN conjunct2, THEN conjunct1]
  have busy: "state_machine_event (Some busy_sm) 0 0 STATE_MACHINE_NONBLOCK (0, [])
       = Inr (STATE_MACHINE_WOULD_BLOCK, busy_sm, (0, [Call_transition 0 0 1]))"
    by (simp add: engine_defs busy_sm_def busy_transition_def STATE_MACHINE_NO_LOCKING_def)
  have d: "Call_transition (current_state busy_sm) 0 STATE_MACHINE_WOULD_BLOCK \<in> set [Call_transition 0 0 1]"
    by (simp add: busy_sm_def STATE_MACHINE_WOULD_BLOCK_def)
  from nl nb a b c busy d show ?thesis by simp
qed

subsection \<open>C10: a failed resolution reads nothing through the pointer\<close>

text \<open>
  Claim C10. When, in a dispatch on a machine with a transition function, the
  transition function returns a nonzero status, \<open>state_machine_event\<close> reads nothing
  through the transition pointer, whatever the transition function left there (also
  no usable pointer, \<open>None\<close>): the step of lines 267-272 leaves the machine alone without
  looking at the pointer, the dispatch does not end in a read through an invalid
  pointer, and it returns the status before the callback and cleanup sections.
\<close>

theorem failed_resolution_reads_no_transition:
  assumes "transition m = Function (Some f) c"
    and "lock_take m flags env = Inr (STATE_MACHINE_SUCCESS, env1)"
    and "event < max_event m" and "current_state m < max_state m"
    and "f (current_state m) event (data m) (fst env1) = (st, tp, w2)"
    and "st \<noteq> STATE_MACHINE_SUCCESS"
  shows "change_state m st tp (current_state m) (max_state m)
           = Inr (m, current_state m, max_state m)
       \<and> state_machine_event (Some m) event event_data flags env \<noteq> Inl Invalid_transition_pointer
       \<and> (\<exists>env'. state_machine_event (Some m) event event_data flags env = Inr (st, m, env'))"
proof (intro conjI)
  from assms(6)
  show chg: "change_state m st tp (current_state m) (max_state m)
               = Inr (m, current_state m, max_state m)"
    by (simp add: change_state_def is_sm_success_def)
  from assms(2) have cons: "ASSERT_LOCKING_DEFINITION_CONSISTENCY (lock m)"
    by (auto simp add: lock_take_def split: if_splits)
  let ?env2 = "(w2, snd env1 @ [Call_transition (current_state m) event st])"
  from cons obtain env3 where gv: "lock_give m ?env2 = Inr env3"
    by (auto simp add: lock_give_def USE_LOCKING_def ASSERT_LOCKING_DEFINITION_CONSISTENCY_def)
  from assms(1,5)
  have res: "resolve_transition m STATE_MACHINE_SUCCESS (max_event m) (current_state m) event
               (data m) env1 = Inr (st, tp, ?env2)"
    by (simp add: resolve_transition_def)
  from assms(2,3,4,6) res chg gv
  have ret: "state_machine_event (Some m) event event_data flags env = Inr (st, m, env3)"
    by (simp add: state_machine_event_def is_sm_failure_def)
  then show "\<exists>env'. state_machine_event (Some m) event event_data flags env = Inr (st, m, env')" ..
  from ret show "state_machine_event (Some m) event event_data flags env \<noteq> Inl Invalid_transition_pointer"
    by simp
qed

theorem failed_resolution_reads_no_transition_witness:
  "transition function_sm = Function (Some example_transition) (Some example_cleanup)
   \<and> lock_take function_sm 0 (0, []) = Inr (STATE_MACHINE_SUCCESS, (0, []))
   \<and> 2 < max_event function_sm
   \<and> current_state function_sm < max_state function_sm
   \<and> example_transition (current_state function_sm) 2 (data function_sm) (fst (0 :: nat, [] :: call list))
       = (7, None, 0)
   \<and> 7 \<noteq> STATE_MACHINE_SUCCESS
   \<and> change_state function_sm 7 None (current_state function_sm) (max_state function_sm)
       = Inr (function_sm, current_state function_sm, max_state function_sm)
   \<and> state_machine_event (Some function_sm) 2 5 0 (0, []) \<noteq> Inl Invalid_transition_pointer
   \<and> (\<exists>env'. state_machine_event (Some function_sm) 2 5 0 (0, []) = Inr (7, function_sm, env'))
   \<and> change_state function_sm 0 None (current_state function_sm) (max_state function_sm)
       = Inl Invalid_transition_pointer"
proof -
  have fn: "transition function_sm = Function (Some example_transition) (Some example_cleanup)"
    by (simp add: function_sm_def)
  have e: "2 < max_event function_sm" and s: "current_state function_sm < max_state function_sm"
    by (simp_all add: function_sm_def)
  have r: "example_transition (current_state function_sm) 2 (data function_sm)
             (fst (0 :: nat, [] :: call list)) = (7, None, 0)"
    by (simp add: example_transition_def function_sm_def)
  have n: "7 \<noteq> STATE_MACHINE_SUCCESS" by (simp add: STATE_MACHINE_SUCCESS_def)
  note safe = failed_resolution_reads_no_transition [OF fn no_locking_lock_take(2) e s r n, of 5]
  have reads: "change_state function_sm 0 None (current_state function_sm) (max_state function_sm)
       = Inl Invalid_transition_pointer"
    by (simp add: change_state_def is_sm_success_def STATE_MACHINE_SUCCESS_def)
  from fn e s r n safe reads show ?thesis
    by (simp add: no_locking_lock_take)
qed

end
